theory Spec2Isabelle
  imports Main "HOL-Library.AList" "HOL-Library.List_Lexorder"
begin

section \<open>FuzClass: typo-tolerant attribute access (fuz.py)\<close>

text \<open>
  The model follows \<^verbatim>\<open>src/fuz.py\<close> method by method. A Python string is the list of its
  Unicode code points. Every Python exception the methods can raise is a value of
  \<open>error\<close>, and every method returns \<open>error + result\<close>. The two functions the class calls
  but does not define, \<^verbatim>\<open>str.lower\<close> and \<^verbatim>\<open>fuzzy.DMetaphone()\<close>, are parameters.
\<close>

subsection \<open>Strings\<close>

type_synonym codepoint = nat

type_synonym pystr = "codepoint list"

text \<open>The Python string written with the given ASCII characters.\<close>

definition str :: "string \<Rightarrow> pystr" where
  "str s = map of_char s"

subsection \<open>Errors\<close>

datatype error =
    IndexError
      \<comment> \<open>\<^verbatim>\<open>name[0]\<close> on an empty string\<close>
  | NoneTypeError
      \<comment> \<open>\<^verbatim>\<open>None.decode()\<close>: AttributeError, 'NoneType' object has no attribute 'decode'\<close>
  | AttributeError string pystr
      \<comment> \<open>line 144: the class of the object and the requested name\<close>
  | LookupError string pystr
      \<comment> \<open>AttributeError of \<^verbatim>\<open>object.__getattribute__\<close>: class and name looked up\<close>

subsection \<open>The phonetic encoder (external package)\<close>

text \<open>
  \<^verbatim>\<open>fuzzy.DMetaphone()\<close> is not part of the repository, so the encoder is a parameter
  of every definition that calls it. Applied to a name it yields a pair (primary code,
  secondary code); a component is either a byte string or Python's \<^verbatim>\<open>None\<close> when
  there is no code.
\<close>

type_synonym encoder = "pystr \<Rightarrow> pystr option \<times> pystr option"

subsection \<open>Lower-casing (Python builtin)\<close>

text \<open>
  \<^verbatim>\<open>str.lower()\<close> is Unicode lower-casing of a whole string: it folds every cased
  character, the result can be longer than the argument (U+0130 becomes the two code
  points U+0069 U+0307), and the image of a character can depend on its neighbours
  (capital sigma at the end of a word). It is a parameter \<open>lower\<close> of every definition
  that calls it; nothing about it is built into the model.
\<close>

type_synonym lowering = "pystr \<Rightarrow> pystr"

subsection \<open>\<^verbatim>\<open>_off_limits\<close> (lines 37-45)\<close>

text \<open>
  \<^verbatim>\<open>return name[0] == "_" or len(name) < 2\<close>: the index is evaluated first, so the
  empty name raises IndexError before its length is looked at.
\<close>

fun off_limits :: "pystr \<Rightarrow> error + bool" where
  "off_limits [] = Inl IndexError"
| "off_limits (c # cs) = Inr (c = of_char CHR ''_'' \<or> length (c # cs) < 2)"

subsection \<open>\<^verbatim>\<open>_get_name_sound\<close> (lines 47-58)\<close>

text \<open>
  \<^verbatim>\<open>name_sound_bytes, _ = dmo(name)\<close> keeps the primary code, and
  \<^verbatim>\<open>name_sound_bytes.decode()\<close> turns it into a string; on \<^verbatim>\<open>None\<close> the call
  of \<^verbatim>\<open>decode\<close> raises.
\<close>

definition get_name_sound :: "encoder \<Rightarrow> pystr \<Rightarrow> error + pystr" where
  "get_name_sound dmo name =
     (case dmo name of
        (None, _) \<Rightarrow> Inl NoneTypeError
      | (Some name_sound_bytes, _) \<Rightarrow> Inr name_sound_bytes)"

subsection \<open>Set helpers\<close>

text \<open>\<^verbatim>\<open>set(s[1:-1])\<close>: the slice is empty for strings shorter than 3, it never raises.\<close>

definition inner_letters :: "pystr \<Rightarrow> codepoint set" where
  "inner_letters s = set (butlast (tl s))"

text \<open>\<^verbatim>\<open>a.symmetric_difference(b)\<close>\<close>

definition symmetric_difference :: "'a set \<Rightarrow> 'a set \<Rightarrow> 'a set" where
  "symmetric_difference a b = (a - b) \<union> (b - a)"

subsection \<open>\<^verbatim>\<open>_find_similar_attr\<close> (lines 60-122)\<close>

text \<open>
  Line 78, \<^verbatim>\<open>[a for a in dir(self) if not self._off_limits(a)]\<close>: the comprehension
  calls \<^verbatim>\<open>_off_limits\<close> on every listed name, left to right, and raises where it raises.
\<close>

fun existing_attrs_of :: "pystr list \<Rightarrow> error + pystr list" where
  "existing_attrs_of [] = Inr []"
| "existing_attrs_of (a # as) =
     (case off_limits a of
        Inl e \<Rightarrow> Inl e
      | Inr b \<Rightarrow>
          (case existing_attrs_of as of
             Inl e \<Rightarrow> Inl e
           | Inr rest \<Rightarrow> Inr (if \<not> b then a # rest else rest)))"

text \<open>
  The condition of lines 96-99 on the two lower-cased names. Python evaluates
  \<^verbatim>\<open>attr_lower == name_lower\<close> first; only when it is false are \<^verbatim>\<open>attr_lower[0]\<close>,
  \<^verbatim>\<open>name_lower[0]\<close> and then the last characters read, and an index on an empty
  string raises.
\<close>

definition similar_spelling :: "pystr \<Rightarrow> pystr \<Rightarrow> error + bool" where
  "similar_spelling name_lower attr_lower =
     (let specified_inner_letters = inner_letters name_lower;
          attr_inner_letters = inner_letters attr_lower;
          different_inner_letters =
            symmetric_difference specified_inner_letters attr_inner_letters
      in if attr_lower = name_lower then Inr True
         else if attr_lower = [] \<or> name_lower = [] then Inl IndexError
         else Inr (hd attr_lower = hd name_lower \<and>
                   last attr_lower = last name_lower \<and>
                   card different_inner_letters < 2))"

text \<open>
  The loop of lines 88-104 over \<^verbatim>\<open>enumerate(existing_attrs_lower)\<close>; a hit returns
  \<^verbatim>\<open>existing_attrs[i]\<close>, and \<open>None\<close> stands for leaving the loop without a hit.
\<close>

fun spelling_loop :: "pystr list \<Rightarrow> pystr \<Rightarrow> (nat \<times> pystr) list \<Rightarrow> error + pystr option" where
  "spelling_loop existing_attrs name_lower [] = Inr None"
| "spelling_loop existing_attrs name_lower ((i, attr_lower) # rest) =
     (case similar_spelling name_lower attr_lower of
        Inl e \<Rightarrow> Inl e
      | Inr True \<Rightarrow> Inr (Some (existing_attrs ! i))
      | Inr False \<Rightarrow> spelling_loop existing_attrs name_lower rest)"

text \<open>The loop of lines 111-120 over \<^verbatim>\<open>existing_attrs\<close>.\<close>

fun sound_loop :: "encoder \<Rightarrow> pystr \<Rightarrow> pystr list \<Rightarrow> error + pystr option" where
  "sound_loop dmo name_sound [] = Inr None"
| "sound_loop dmo name_sound (attr # rest) =
     (case get_name_sound dmo attr of
        Inl e \<Rightarrow> Inl e
      | Inr existing_attr_name_sound \<Rightarrow>
          if existing_attr_name_sound = name_sound then Inr (Some attr)
          else sound_loop dmo name_sound rest)"

text \<open>
  Lines 81-104: the lower-cased copies and the spelling loop over the filtered names.
  The encoder is not involved.
\<close>

definition orthographic_pass :: "lowering \<Rightarrow> pystr list \<Rightarrow> pystr \<Rightarrow> error + pystr option" where
  "orthographic_pass lower existing_attrs name =
     (let existing_attrs_lower = map lower existing_attrs;
          name_lower = lower name
      in spelling_loop existing_attrs name_lower (enumerate 0 existing_attrs_lower))"

text \<open>Lines 109-120: \<^verbatim>\<open>if name_sound:\<close> is false exactly for the empty string.\<close>

definition phonetic_pass :: "encoder \<Rightarrow> pystr list \<Rightarrow> pystr \<Rightarrow> error + pystr option" where
  "phonetic_pass dmo existing_attrs name =
     (case get_name_sound dmo name of
        Inl e \<Rightarrow> Inl e
      | Inr name_sound \<Rightarrow>
          if name_sound \<noteq> [] then sound_loop dmo name_sound existing_attrs
          else Inr None)"

text \<open>
  The whole method. \<open>dir_self\<close> is the list \<^verbatim>\<open>dir(self)\<close> returns at the moment of the
  call. Each \<open>Inl\<close> branch is an exception leaving the method; the last line is
  \<^verbatim>\<open>return name\<close>.
\<close>

definition find_similar_attr ::
    "lowering \<Rightarrow> encoder \<Rightarrow> pystr list \<Rightarrow> pystr \<Rightarrow> error + pystr" where
  "find_similar_attr lower dmo dir_self name =
     (case off_limits name of
        Inl e \<Rightarrow> Inl e
      | Inr True \<Rightarrow> Inr name
      | Inr False \<Rightarrow>
          (case existing_attrs_of dir_self of
             Inl e \<Rightarrow> Inl e
           | Inr existing_attrs \<Rightarrow>
               (case orthographic_pass lower existing_attrs name of
                  Inl e \<Rightarrow> Inl e
                | Inr (Some attr) \<Rightarrow> Inr attr
                | Inr None \<Rightarrow>
                    (case phonetic_pass dmo existing_attrs name of
                       Inl e \<Rightarrow> Inl e
                     | Inr (Some attr) \<Rightarrow> Inr attr
                     | Inr None \<Rightarrow> Inr name))))"

subsection \<open>The object and its attribute hooks (lines 124-147)\<close>

text \<open>
  An instance is its class and its instance dictionary, an association list in
  insertion order as a Python \<^verbatim>\<open>dict\<close> is. \<^verbatim>\<open>dir(self)\<close> lists the attribute
  names in sorted order (strings compare lexicographically by code point). The names
  that \<^verbatim>\<open>FuzClass\<close> and \<^verbatim>\<open>object\<close> contribute all begin with an underscore and line
  78 drops them, so the list is built from the instance dictionary.
\<close>

record 'v fuzobj =
  cls :: string
  attrs :: "(pystr \<times> 'v) list"

definition dir_self :: "'v fuzobj \<Rightarrow> pystr list" where
  "dir_self obj = sort (remdups (map fst (attrs obj)))"

text \<open>\<^verbatim>\<open>object.__setattr__\<close> and \<^verbatim>\<open>object.__getattribute__\<close> on the instance dictionary.\<close>

definition object_setattr :: "'v fuzobj \<Rightarrow> pystr \<Rightarrow> 'v \<Rightarrow> 'v fuzobj" where
  "object_setattr obj name v = obj\<lparr>attrs := AList.update name v (attrs obj)\<rparr>"

definition object_getattribute :: "'v fuzobj \<Rightarrow> pystr \<Rightarrow> error + 'v" where
  "object_getattribute obj name =
     (case map_of (attrs obj) name of
        None \<Rightarrow> Inl (LookupError (cls obj) name)
      | Some v \<Rightarrow> Inr v)"

text \<open>\<^verbatim>\<open>__setattr__\<close> (lines 124-133)\<close>

definition fuz_setattr ::
    "lowering \<Rightarrow> encoder \<Rightarrow> 'v fuzobj \<Rightarrow> pystr \<Rightarrow> 'v \<Rightarrow> error + 'v fuzobj" where
  "fuz_setattr lower dmo obj name v =
     (case find_similar_attr lower dmo (dir_self obj) name of
        Inl e \<Rightarrow> Inl e
      | Inr new_name \<Rightarrow> Inr (object_setattr obj new_name v))"

text \<open>\<^verbatim>\<open>__getattr__\<close> (lines 135-147)\<close>

definition fuz_getattr :: "lowering \<Rightarrow> encoder \<Rightarrow> 'v fuzobj \<Rightarrow> pystr \<Rightarrow> error + 'v" where
  "fuz_getattr lower dmo obj name =
     (case find_similar_attr lower dmo (dir_self obj) name of
        Inl e \<Rightarrow> Inl e
      | Inr new_name \<Rightarrow>
          if new_name = name then Inl (AttributeError (cls obj) name)
          else object_getattribute obj new_name)"

text \<open>
  Reading \<^verbatim>\<open>obj.name\<close>: Python looks the name up first and calls \<^verbatim>\<open>__getattr__\<close>
  only when that lookup fails.
\<close>

definition read_attr :: "lowering \<Rightarrow> encoder \<Rightarrow> 'v fuzobj \<Rightarrow> pystr \<Rightarrow> error + 'v" where
  "read_attr lower dmo obj name =
     (case object_getattribute obj name of
        Inr v \<Rightarrow> Inr v
      | Inl _ \<Rightarrow> fuz_getattr lower dmo obj name)"

text \<open>A fresh instance of class \<open>c\<close>.\<close>

definition new_obj :: "string \<Rightarrow> 'v fuzobj" where
  "new_obj c = \<lparr>cls = c, attrs = []\<rparr>"

subsection \<open>Vocabulary for the properties\<close>

text \<open>A name takes part in matching when \<^verbatim>\<open>_off_limits\<close> returns \<^verbatim>\<open>False\<close> for it.\<close>

definition eligible :: "pystr \<Rightarrow> bool" where
  "eligible name \<longleftrightarrow> off_limits name = Inr False"

text \<open>
  The spelling test as the code applies it to a candidate and an existing name: both are
  lower-cased as a whole first, and first letter, last letter and inner letters are all
  taken from the lower-cased strings.
\<close>

definition orthographic_match :: "lowering \<Rightarrow> pystr \<Rightarrow> pystr \<Rightarrow> bool" where
  "orthographic_match lower candidate e \<longleftrightarrow>
     lower e = lower candidate \<or>
     (hd (lower e) = hd (lower candidate) \<and>
      last (lower e) = last (lower candidate) \<and>
      card (symmetric_difference (inner_letters (lower candidate)) (inner_letters (lower e))) < 2)"

text \<open>
  The spelling test in the words of the specification: first and last characters are
  compared case-insensitively (as lower-cased one-character strings), the inner letters
  are those of the two names themselves.
\<close>

definition spec_orthographic_match :: "lowering \<Rightarrow> pystr \<Rightarrow> pystr \<Rightarrow> bool" where
  "spec_orthographic_match lower candidate e \<longleftrightarrow>
     lower e = lower candidate \<or>
     (lower [hd e] = lower [hd candidate] \<and>
      lower [last e] = lower [last candidate] \<and>
      card (symmetric_difference (inner_letters e) (inner_letters candidate)) < 2)"

subsection \<open>Instances of the parameters for the examples\<close>

text \<open>
  A concrete encoder: a finite table of primary codes, names and codes written in ASCII;
  a name outside the table has no code, and no name has a secondary code.
\<close>

definition dmo_table :: "(string \<times> string) list \<Rightarrow> encoder" where
  "dmo_table codes name = (map_of (map (\<lambda>(n, c). (str n, str c)) codes) name, None)"

text \<open>
  Lower-casing of ASCII strings: A-Z (65-90) move to a-z. On a string of ASCII
  characters this is what \<^verbatim>\<open>str.lower()\<close> returns; the examples apply it to such
  strings only.
\<close>

definition ascii_lower_char :: "codepoint \<Rightarrow> codepoint" where
  "ascii_lower_char c = (if 65 \<le> c \<and> c \<le> 90 then c + 32 else c)"

definition ascii_lower :: lowering where
  "ascii_lower s = map ascii_lower_char s"

text \<open>
  Lower-casing of strings made of ASCII characters and U+0130 (304, capital I with dot
  above), which \<^verbatim>\<open>str.lower()\<close> turns into the two code points U+0069 U+0307
  (105, 775).
\<close>

definition dotted_lower :: lowering where
  "dotted_lower s = concat (map (\<lambda>c. if c = 304 then [105, 775] else [ascii_lower_char c]) s)"

subsection \<open>Reachable objects\<close>

text \<open>
  The objects a program can build: a fresh instance, and whatever a write that returned
  makes of a reachable object.
\<close>

inductive reachable :: "lowering \<Rightarrow> encoder \<Rightarrow> 'v fuzobj \<Rightarrow> bool"
  for lower :: lowering and dmo :: encoder where
  reach_new: "reachable lower dmo (new_obj c)"
| reach_set: "reachable lower dmo obj \<Longrightarrow> fuz_setattr lower dmo obj name v = Inr obj'
              \<Longrightarrow> reachable lower dmo obj'"

text \<open>
  No stored name is empty, and no two different eligible stored names pass the spelling
  test against each other.
\<close>

definition names_apart :: "lowering \<Rightarrow> 'v fuzobj \<Rightarrow> bool" where
  "names_apart lower obj \<longleftrightarrow>
     [] \<notin> fst ` set (attrs obj) \<and>
     (\<forall>a \<in> fst ` set (attrs obj). \<forall>b \<in> fst ` set (attrs obj).
        eligible a \<and> eligible b \<and> orthographic_match lower a b \<longrightarrow> a = b)"

section \<open>Basic facts about the methods\<close>

subsection \<open>The name guard and the filtered list\<close>

lemma eligible_iff: "eligible n \<longleftrightarrow> 2 \<le> length n \<and> hd n \<noteq> of_char CHR ''_''"
  by (cases n; cases "tl n") (auto simp: eligible_def)

lemma eligible_nonempty: "eligible n \<Longrightarrow> n \<noteq> []"
  by (auto simp: eligible_def)

lemma off_limits_Inl: "off_limits n = Inl e \<longleftrightarrow> n = [] \<and> e = IndexError"
  by (cases n) auto

lemma off_limits_nonempty: "n \<noteq> [] \<Longrightarrow> off_limits n = Inr (\<not> eligible n)"
  by (cases n) (auto simp: eligible_def)

lemma existing_attrs_of_filter:
  "[] \<notin> set xs \<Longrightarrow> existing_attrs_of xs = Inr (filter eligible xs)"
  by (induction xs) (auto simp: off_limits_nonempty)

lemma existing_attrs_of_empty_name:
  "[] \<in> set xs \<Longrightarrow> existing_attrs_of xs = Inl IndexError"
  by (induction xs) (auto simp: off_limits_Inl split: sum.splits)

lemma existing_attrs_of_Inr:
  "existing_attrs_of xs = Inr ys \<Longrightarrow> [] \<notin> set xs \<and> ys = filter eligible xs"
  using existing_attrs_of_filter existing_attrs_of_empty_name
  by (metis Inl_Inr_False sum.inject(2))

subsection \<open>The spelling loop is a search for the first match\<close>

text \<open>
  The facts below need of \<open>lower\<close> only that the lower-cased names at hand are not
  empty; \<^verbatim>\<open>str.lower()\<close> never turns a non-empty string into the empty one.
\<close>

lemma similar_spelling_lower:
  "lower candidate \<noteq> [] \<Longrightarrow> lower e \<noteq> [] \<Longrightarrow>
   similar_spelling (lower candidate) (lower e) = Inr (orthographic_match lower candidate e)"
  by (auto simp: similar_spelling_def orthographic_match_def Let_def)

text \<open>
  The loop runs over positions \<open>length pre, length pre + 1, ...\<close> of the list
  \<open>pre @ suffix\<close>; the position of a hit indexes the same list, so the name returned
  is the element of \<open>suffix\<close> the search stops at.
\<close>

lemma spelling_loop_find:
  "\<forall>a \<in> set suffix. lower a \<noteq> [] \<Longrightarrow> lower name \<noteq> [] \<Longrightarrow>
   spelling_loop (pre @ suffix) (lower name) (enumerate (length pre) (map lower suffix))
     = Inr (find (orthographic_match lower name) suffix)"
proof (induction suffix arbitrary: pre)
  case Nil
  then show ?case by simp
next
  case (Cons a suffix)
  have "spelling_loop ((pre @ [a]) @ suffix) (lower name)
          (enumerate (length (pre @ [a])) (map lower suffix))
        = Inr (find (orthographic_match lower name) suffix)"
    using Cons.prems by (intro Cons.IH) auto
  then show ?case
    using Cons.prems by (simp add: similar_spelling_lower)
qed

lemma orthographic_pass_find:
  assumes "\<forall>a \<in> set existing. lower a \<noteq> []" "lower name \<noteq> []"
  shows "orthographic_pass lower existing name
           = Inr (find (orthographic_match lower name) existing)"
  using spelling_loop_find [OF assms, of "[]"] by (simp add: orthographic_pass_def)

text \<open>Whatever \<open>lower\<close> does, a hit of the loop is one of the existing names.\<close>

lemma spelling_loop_mem:
  "spelling_loop existing name_lower (enumerate k ys) = Inr (Some r) \<Longrightarrow>
   k + length ys \<le> length existing \<Longrightarrow> r \<in> set existing"
proof (induction ys arbitrary: k)
  case Nil
  then show ?case by simp
next
  case (Cons y ys)
  show ?case
  proof (cases "similar_spelling name_lower y")
    case (Inl e)
    then show ?thesis using Cons.prems by simp
  next
    case (Inr b)
    show ?thesis
    proof (cases b)
      case True
      then have "r = existing ! k" using Cons.prems(1) Inr by simp
      moreover have "k < length existing" using Cons.prems(2) by simp
      ultimately show ?thesis by simp
    next
      case False
      then have "spelling_loop existing name_lower (enumerate (Suc k) ys) = Inr (Some r)"
        using Cons.prems(1) Inr by simp
      then show ?thesis using Cons.prems(2) by (intro Cons.IH [of "Suc k"]) auto
    qed
  qed
qed

lemma orthographic_pass_mem:
  "orthographic_pass lower existing name = Inr (Some r) \<Longrightarrow> r \<in> set existing"
  using spelling_loop_mem [of existing "lower name" 0 "map lower existing" r]
  by (simp add: orthographic_pass_def)

lemma find_Some_set: "find P xs = Some r \<Longrightarrow> r \<in> set xs \<and> P r"
  by (induction xs) (auto split: if_splits)

lemma sorted_find_least:
  fixes xs :: "'a :: linorder list"
  shows "sorted xs \<Longrightarrow> find P xs = Some r \<Longrightarrow> a \<in> set xs \<Longrightarrow> P a \<Longrightarrow> r \<le> a"
  by (induction xs) (auto split: if_splits)

subsection \<open>The sound loop\<close>

lemma get_name_sound_Some: "fst (dmo a) = Some s \<Longrightarrow> get_name_sound dmo a = Inr s"
  by (auto simp: get_name_sound_def split: prod.splits)

lemma get_name_sound_None: "fst (dmo a) = None \<Longrightarrow> get_name_sound dmo a = Inl NoneTypeError"
  by (auto simp: get_name_sound_def split: prod.splits)

lemma sound_loop_find:
  "\<forall>a \<in> set xs. fst (dmo a) \<noteq> None \<Longrightarrow>
   sound_loop dmo s xs = Inr (find (\<lambda>a. fst (dmo a) = Some s) xs)"
  by (induction xs) (auto simp: get_name_sound_Some)

lemma sound_loop_mem: "sound_loop dmo s xs = Inr (Some r) \<Longrightarrow> r \<in> set xs"
  by (induction xs) (auto split: sum.splits if_splits)

subsection \<open>The parts of a name\<close>

lemma inner_letters_map: "inner_letters (map f s) = f ` inner_letters s"
  by (simp add: inner_letters_def map_butlast [symmetric] map_tl [symmetric])

lemma inner_letters_two: "length s = 2 \<Longrightarrow> inner_letters s = {}"
  by (cases s; cases "tl s") (auto simp: inner_letters_def)

subsection \<open>A spelling match ends the method\<close>

lemma find_similar_attr_orthographic:
  assumes "eligible candidate" "[] \<notin> set dir_list"
    and "\<forall>a \<in> set (filter eligible dir_list). lower a \<noteq> []" and "lower candidate \<noteq> []"
    and "find (orthographic_match lower candidate) (filter eligible dir_list) = Some e"
  shows "find_similar_attr lower dmo dir_list candidate = Inr e"
proof -
  have "orthographic_pass lower (filter eligible dir_list) candidate = Inr (Some e)"
    using orthographic_pass_find [OF assms(3,4)] assms(5) by simp
  then show ?thesis
    using assms(1,2) by (simp add: find_similar_attr_def eligible_def existing_attrs_of_filter)
qed

text \<open>The definitions a concrete run unfolds.\<close>

lemmas run_defs =
  find_similar_attr_def orthographic_pass_def phonetic_pass_def similar_spelling_def
  get_name_sound_def inner_letters_def symmetric_difference_def str_def
  ascii_lower_def ascii_lower_char_def dmo_table_def eligible_def orthographic_match_def

subsection \<open>The phonetic pass when every name has a code\<close>

lemma phonetic_pass_find:
  assumes "fst (dmo name) = Some c" and "\<forall>a \<in> set existing. fst (dmo a) \<noteq> None"
  shows "phonetic_pass dmo existing name =
           Inr (if c = [] then None else find (\<lambda>a. fst (dmo a) = Some c) existing)"
  using assms by (simp add: phonetic_pass_def get_name_sound_Some sound_loop_find)

lemma find_similar_attr_phonetic:
  assumes "eligible candidate" and "[] \<notin> set dir_list"
    and "\<forall>s. s \<noteq> [] \<longrightarrow> lower s \<noteq> []"
    and "find (orthographic_match lower candidate) (filter eligible dir_list) = None"
    and "fst (dmo candidate) = Some c"
    and "\<forall>a \<in> set (filter eligible dir_list). fst (dmo a) \<noteq> None"
  shows "find_similar_attr lower dmo dir_list candidate =
           Inr (if c = [] then candidate
                else case find (\<lambda>a. fst (dmo a) = Some c) (filter eligible dir_list) of
                       None \<Rightarrow> candidate | Some e \<Rightarrow> e)"
proof -
  have ne: "lower candidate \<noteq> []"
    using assms(1,3) by (auto dest: eligible_nonempty)
  have "\<forall>a \<in> set (filter eligible dir_list). lower a \<noteq> []"
    using assms(3) by (auto dest: eligible_nonempty)
  then have o: "orthographic_pass lower (filter eligible dir_list) candidate = Inr None"
    using orthographic_pass_find ne assms(4) by simp
  have p: "phonetic_pass dmo (filter eligible dir_list) candidate =
           Inr (if c = [] then None
                else find (\<lambda>a. fst (dmo a) = Some c) (filter eligible dir_list))"
    using assms(5,6) by (rule phonetic_pass_find)
  show ?thesis
    using assms(1,2)
    by (simp add: find_similar_attr_def eligible_def existing_attrs_of_filter o p
        split: option.splits)
qed

subsection \<open>What the method can return, and when it returns\<close>

lemma find_similar_attr_result:
  assumes "find_similar_attr lower dmo dir_list name = Inr r"
  shows "r = name \<or> (r \<in> set dir_list \<and> eligible r)"
proof (cases "off_limits name")
  case (Inl e)
  then show ?thesis using assms by (simp add: find_similar_attr_def)
next
  case (Inr b)
  show ?thesis
  proof (cases b)
    case True
    then show ?thesis using assms Inr by (simp add: find_similar_attr_def)
  next
    case False
    show ?thesis
    proof (cases "existing_attrs_of dir_list")
      case (Inl e)
      then show ?thesis using assms Inr False by (simp add: find_similar_attr_def)
    next
      case ex: (Inr existing)
      then have ex_eq: "existing = filter eligible dir_list"
        by (simp add: existing_attrs_of_Inr)
      have "r = name \<or> orthographic_pass lower existing name = Inr (Some r)
              \<or> phonetic_pass dmo existing name = Inr (Some r)"
        using assms Inr False ex
        by (auto simp: find_similar_attr_def split: sum.splits option.splits)
      moreover have "r \<in> set existing" if "orthographic_pass lower existing name = Inr (Some r)"
        using that by (rule orthographic_pass_mem)
      moreover have "r \<in> set existing" if "phonetic_pass dmo existing name = Inr (Some r)"
        using that
        by (auto simp: phonetic_pass_def split: sum.splits if_splits dest: sound_loop_mem)
      ultimately show ?thesis using ex_eq by auto
    qed
  qed
qed

text \<open>
  The method returns a name whenever the candidate is not empty, no listed name is
  empty, and the encoder has a code (possibly the empty one) for the candidate and for
  every eligible listed name.
\<close>

lemma find_similar_attr_returns:
  assumes "name \<noteq> []" and "[] \<notin> set dir_list" and "\<forall>s. s \<noteq> [] \<longrightarrow> lower s \<noteq> []"
    and "fst (dmo name) \<noteq> None"
    and "\<forall>a \<in> set (filter eligible dir_list). fst (dmo a) \<noteq> None"
  shows "\<exists>r. find_similar_attr lower dmo dir_list name = Inr r"
proof (cases "eligible name")
  case False
  then show ?thesis
    using assms(1) by (simp add: find_similar_attr_def off_limits_nonempty)
next
  case True
  have l1: "\<forall>a \<in> set (filter eligible dir_list). lower a \<noteq> []"
    using assms(3) by (auto dest: eligible_nonempty)
  have l2: "lower name \<noteq> []" using assms(1,3) by simp
  show ?thesis
  proof (cases "find (orthographic_match lower name) (filter eligible dir_list)")
    case (Some e)
    then show ?thesis
      using find_similar_attr_orthographic [OF True assms(2) l1 l2 Some] by blast
  next
    case None
    obtain c where "fst (dmo name) = Some c" using assms(4) by auto
    then show ?thesis
      using find_similar_attr_phonetic [OF True assms(2,3) None _ assms(5)] by blast
  qed
qed

subsection \<open>The object\<close>

lemmas obj_defs =
  fuz_setattr_def fuz_getattr_def read_attr_def object_setattr_def object_getattribute_def
  new_obj_def dir_self_def

lemma set_dir_self: "set (dir_self obj) = fst ` set (attrs obj)"
  by (simp add: dir_self_def)

lemma sorted_dir_self: "sorted (dir_self obj)"
  by (simp add: dir_self_def)

lemma map_of_update_same: "map_of (AList.update k v al) k = Some v"
  by (simp add: update_conv')

text \<open>The empty name is never stored by a write.\<close>

lemma fuz_setattr_no_empty_name:
  assumes "fuz_setattr lower dmo obj name v = Inr obj'" and "[] \<notin> fst ` set (attrs obj)"
  shows "[] \<notin> fst ` set (attrs obj')"
proof -
  obtain r where r: "find_similar_attr lower dmo (dir_self obj) name = Inr r"
    and obj': "obj' = object_setattr obj r v"
    using assms(1) by (auto simp: fuz_setattr_def split: sum.splits)
  have "name \<noteq> []"
    using r by (auto simp: find_similar_attr_def)
  then have "r \<noteq> []"
    using find_similar_attr_result [OF r] assms(2) by (auto simp: set_dir_self)
  then show ?thesis
    using assms(2) by (auto simp: obj' object_setattr_def dom_update)
qed

text \<open>
  The \<^verbatim>\<open>__getattr__\<close> hook once the resolution has returned \<open>r\<close>: the error of line
  144 when \<open>r\<close> is the requested name, the stored value of \<open>r\<close> otherwise. The hook runs
  only for a name the plain lookup did not find.
\<close>

lemma fuz_getattr_cases:
  assumes "find_similar_attr lower dmo (dir_self obj) name = Inr r"
  shows "r = name \<Longrightarrow> fuz_getattr lower dmo obj name = Inl (AttributeError (cls obj) name)"
    and "r \<noteq> name \<Longrightarrow>
           \<exists>v. map_of (attrs obj) r = Some v \<and> fuz_getattr lower dmo obj name = Inr v"
proof -
  show "fuz_getattr lower dmo obj name = Inl (AttributeError (cls obj) name)" if "r = name"
    using assms that by (simp add: fuz_getattr_def)
  show "\<exists>v. map_of (attrs obj) r = Some v \<and> fuz_getattr lower dmo obj name = Inr v"
    if "r \<noteq> name"
  proof -
    have "r \<in> set (dir_self obj)"
      using find_similar_attr_result [OF assms] that by auto
    then have "r \<in> fst ` set (attrs obj)" by (simp add: set_dir_self)
    then obtain v where "map_of (attrs obj) r = Some v"
      by (metis domD dom_map_of_conv_image_fst)
    then show ?thesis
      using assms that by (simp add: fuz_getattr_def object_getattribute_def)
  qed
qed

lemma read_attr_cases:
  "map_of (attrs obj) name = Some v \<Longrightarrow> read_attr lower dmo obj name = Inr v"
  "map_of (attrs obj) name = None \<Longrightarrow>
     read_attr lower dmo obj name = fuz_getattr lower dmo obj name"
  by (simp_all add: read_attr_def object_getattribute_def)

subsection \<open>Reachable objects\<close>

text \<open>
  A write adds a name only when the resolution found no existing match for it, so the
  eligible names of a reachable object never match one another, and a stored name
  resolves to itself.
\<close>

lemma symmetric_difference_commute: "symmetric_difference a b = symmetric_difference b a"
  by (auto simp: symmetric_difference_def)

lemma orthographic_match_sym:
  "orthographic_match lower a b \<Longrightarrow> orthographic_match lower b a"
  unfolding orthographic_match_def
  by (subst symmetric_difference_commute) auto

lemma orthographic_match_refl: "orthographic_match lower a a"
  by (simp add: orthographic_match_def)

lemma find_similar_attr_new_name:
  assumes "find_similar_attr lower dmo dir_list name = Inr name" and "name \<notin> set dir_list"
    and "a \<in> set dir_list" and "eligible a" and "eligible name"
    and nz: "\<forall>s. s \<noteq> [] \<longrightarrow> lower s \<noteq> []"
  shows "\<not> orthographic_match lower name a"
proof
  assume m: "orthographic_match lower name a"
  have ne: "[] \<notin> set dir_list"
  proof
    assume "[] \<in> set dir_list"
    then have "existing_attrs_of dir_list = Inl IndexError"
      by (rule existing_attrs_of_empty_name)
    then show False
      using assms(1,5) by (simp add: find_similar_attr_def eligible_def)
  qed
  have l1: "\<forall>a \<in> set (filter eligible dir_list). lower a \<noteq> []"
    using nz by (auto dest: eligible_nonempty)
  have l2: "lower name \<noteq> []"
    using nz assms(5) by (auto dest: eligible_nonempty)
  have "find (orthographic_match lower name) (filter eligible dir_list) \<noteq> None"
    using m assms(3,4) by (auto simp: find_None_iff)
  then obtain e where
    e: "find (orthographic_match lower name) (filter eligible dir_list) = Some e"
    by auto
  have "find_similar_attr lower dmo dir_list name = Inr e"
    using assms(5) ne l1 l2 e by (rule find_similar_attr_orthographic)
  moreover have "e \<in> set dir_list"
    using find_Some_set [OF e] by simp
  ultimately show False
    using assms(1,2) by auto
qed

lemma names_apart_write:
  assumes "names_apart lower obj" and "fuz_setattr lower dmo obj name v = Inr obj'"
    and nz: "\<forall>s. s \<noteq> [] \<longrightarrow> lower s \<noteq> []"
  shows "names_apart lower obj'"
proof -
  obtain r where r: "find_similar_attr lower dmo (dir_self obj) name = Inr r"
    and obj': "obj' = object_setattr obj r v"
    using assms(2) by (auto simp: fuz_setattr_def split: sum.splits)
  have keys: "fst ` set (attrs obj') = insert r (fst ` set (attrs obj))"
    by (simp add: obj' object_setattr_def dom_update)
  have e0: "[] \<notin> fst ` set (attrs obj)"
    using assms(1) by (simp add: names_apart_def)
  have e: "[] \<notin> fst ` set (attrs obj')"
    using assms(2) e0 by (rule fuz_setattr_no_empty_name)
  show ?thesis
  proof (cases "r \<in> fst ` set (attrs obj)")
    case True
    then have "fst ` set (attrs obj') = fst ` set (attrs obj)"
      using keys by auto
    then show ?thesis
      using assms(1) by (simp add: names_apart_def)
  next
    case False
    then have rn: "r = name" and nd: "name \<notin> set (dir_self obj)"
      using find_similar_attr_result [OF r] by (auto simp: set_dir_self)
    have apart: "\<not> orthographic_match lower name a \<and> \<not> orthographic_match lower a name"
      if "a \<in> fst ` set (attrs obj)" "eligible a" "eligible name" for a
    proof -
      have "a \<in> set (dir_self obj)" using that(1) by (simp add: set_dir_self)
      then have "\<not> orthographic_match lower name a"
        using r rn nd that(2,3) nz find_similar_attr_new_name [of lower dmo "dir_self obj" name a]
        by simp
      then show ?thesis
        using orthographic_match_sym by blast
    qed
    have old: "a = b"
      if "a \<in> fst ` set (attrs obj)" "b \<in> fst ` set (attrs obj)"
        "eligible a" "eligible b" "orthographic_match lower a b" for a b
      using assms(1) that unfolding names_apart_def by blast
    have "a = b"
      if ab: "a \<in> insert name (fst ` set (attrs obj))" "b \<in> insert name (fst ` set (attrs obj))"
        and el: "eligible a" "eligible b" and m: "orthographic_match lower a b" for a b
    proof (cases "a = name"; cases "b = name")
      assume "a = name" "b = name"
      then show ?thesis by simp
    next
      assume "a = name" "b \<noteq> name"
      then show ?thesis using ab(2) el m apart [of b] by blast
    next
      assume "a \<noteq> name" "b = name"
      then show ?thesis using ab(1) el m apart [of a] by blast
    next
      assume "a \<noteq> name" "b \<noteq> name"
      then show ?thesis using ab el m old by blast
    qed
    then show ?thesis
      unfolding names_apart_def keys rn using e keys rn by blast
  qed
qed

lemma reachable_names_apart:
  assumes nz: "\<forall>s. s \<noteq> [] \<longrightarrow> lower s \<noteq> []"
  shows "reachable lower dmo obj \<Longrightarrow> names_apart lower obj"
proof (induction rule: reachable.induct)
  case (reach_new c)
  show ?case by (simp add: names_apart_def new_obj_def)
next
  case (reach_set obj name v obj')
  from reach_set.IH reach_set.hyps(2) nz show ?case by (rule names_apart_write)
qed

lemma stored_name_resolves_to_itself:
  assumes "names_apart lower obj" and "name \<in> fst ` set (attrs obj)"
    and nz: "\<forall>s. s \<noteq> [] \<longrightarrow> lower s \<noteq> []"
  shows "find_similar_attr lower dmo (dir_self obj) name = Inr name"
proof (cases "eligible name")
  case False
  have "[] \<notin> fst ` set (attrs obj)"
    using assms(1) by (simp add: names_apart_def)
  then have "name \<noteq> []" using assms(2) by blast
  then show ?thesis
    using False by (simp add: find_similar_attr_def off_limits_nonempty)
next
  case True
  let ?ex = "filter eligible (dir_self obj)"
  have "name \<in> set ?ex"
    using assms(2) True by (simp add: set_dir_self)
  then have "find (orthographic_match lower name) ?ex \<noteq> None"
    using orthographic_match_refl by (auto simp: find_None_iff)
  then obtain e where e: "find (orthographic_match lower name) ?ex = Some e"
    by auto
  then have "e \<in> fst ` set (attrs obj)" "eligible e" "orthographic_match lower name e"
    using find_Some_set [OF e] by (auto simp: set_dir_self)
  then have "name = e"
    using assms(1,2) True unfolding names_apart_def by blast
  then have en: "e = name" by simp
  have l0: "[] \<notin> set (dir_self obj)"
    using assms(1) by (simp add: names_apart_def set_dir_self)
  have l1: "\<forall>a \<in> set ?ex. lower a \<noteq> []"
    using nz by (auto dest: eligible_nonempty)
  have l2: "lower name \<noteq> []"
    using nz True by (auto dest: eligible_nonempty)
  show ?thesis
    using find_similar_attr_orthographic [OF True l0 l1 l2 e] en by simp
qed

text \<open>
  A read on a reachable object, once the resolution has returned \<open>r\<close>: the error of
  line 144 (class and requested name) exactly when \<open>r\<close> is the requested name and no
  attribute of that name is stored, and the stored value of \<open>r\<close> in every other case.
\<close>

lemma read_attr_of_reachable:
  assumes "reachable lower dmo obj" and "find_similar_attr lower dmo (dir_self obj) name = Inr r"
    and nz: "\<forall>s. s \<noteq> [] \<longrightarrow> lower s \<noteq> []"
  shows "read_attr lower dmo obj name =
           (if r = name \<and> name \<notin> fst ` set (attrs obj)
            then Inl (AttributeError (cls obj) name)
            else object_getattribute obj r)"
    and "\<not> (r = name \<and> name \<notin> fst ` set (attrs obj)) \<Longrightarrow>
           \<exists>v. map_of (attrs obj) r = Some v \<and> read_attr lower dmo obj name = Inr v"
proof -
  have inv: "names_apart lower obj" using nz assms(1) by (rule reachable_names_apart)
  show eq: "read_attr lower dmo obj name =
           (if r = name \<and> name \<notin> fst ` set (attrs obj)
            then Inl (AttributeError (cls obj) name)
            else object_getattribute obj r)"
  proof (cases "map_of (attrs obj) name")
    case None
    then have "name \<notin> fst ` set (attrs obj)"
      by (simp add: map_of_eq_None_iff)
    then show ?thesis
      using None assms(2) by (simp add: read_attr_def fuz_getattr_def object_getattribute_def)
  next
    case (Some v)
    then have in_keys: "name \<in> fst ` set (attrs obj)"
      using map_of_eq_None_iff [of "attrs obj" name] by auto
    then have "r = name"
      using stored_name_resolves_to_itself [OF inv in_keys nz, of dmo] assms(2) by simp
    then show ?thesis
      using Some in_keys by (simp add: read_attr_def object_getattribute_def)
  qed
  show "\<exists>v. map_of (attrs obj) r = Some v \<and> read_attr lower dmo obj name = Inr v"
    if c: "\<not> (r = name \<and> name \<notin> fst ` set (attrs obj))"
  proof -
    have "r \<in> fst ` set (attrs obj)"
      using find_similar_attr_result [OF assms(2)] c by (auto simp: set_dir_self)
    then obtain v where "map_of (attrs obj) r = Some v"
      by (metis domD dom_map_of_conv_image_fst)
    then show ?thesis
      using eq c by (auto simp: object_getattribute_def)
  qed
qed

subsection \<open>The example instance of lower-casing\<close>

lemma ascii_lower_nonempty: "\<forall>s. s \<noteq> [] \<longrightarrow> ascii_lower s \<noteq> []"
  by (simp add: ascii_lower_def)

section \<open>The empty name\<close>

text \<open>
  What holds of the guard on every name that is not empty: a name of length 1 or with a
  leading underscore is off limits, and \<^verbatim>\<open>_find_similar_attr\<close> hands it back whatever
  attributes exist.
\<close>

lemma off_limits_short_or_private:
  assumes "n \<noteq> []" and "length n < 2 \<or> hd n = of_char CHR ''_''"
  shows "off_limits n = Inr True" and "find_similar_attr lower dmo existing n = Inr n"
proof -
  show g: "off_limits n = Inr True"
    using assms by (cases n) auto
  show "find_similar_attr lower dmo existing n = Inr n"
    by (simp add: find_similar_attr_def g)
qed

text \<open>
  C7. Claimed: every name that is empty, of length 1 or starting with an underscore is
  reported off limits, and is returned unchanged by the resolution. For the empty name
  the guard does not return at all: \<^verbatim>\<open>name[0]\<close> raises IndexError before the length is
  tested, and the resolution raises with it instead of returning the empty name.
\<close>

theorem off_limits_empty_name_raises:
  "off_limits [] = Inl IndexError \<and> find_similar_attr lower dmo existing [] \<noteq> Inr []"
  by (simp add: find_similar_attr_def)

text \<open>
  C5. Claimed: the resolution returns a name for every candidate, the empty string
  included, and never raises. On the empty candidate it raises IndexError, whatever the
  existing names and the encoder are.
\<close>

theorem find_similar_attr_empty_name_raises:
  "find_similar_attr lower dmo existing [] = Inl IndexError"
  by (simp add: find_similar_attr_def)

text \<open>
  C8. Claimed: a write never raises, for every name and value. A write under the empty
  name raises IndexError and leaves no new object.
\<close>

theorem fuz_setattr_empty_name_raises:
  "fuz_setattr lower dmo obj [] v = Inl IndexError"
  by (simp add: fuz_setattr_def find_similar_attr_def)

text \<open>
  C4. Claimed: a read either raises the missing-attribute error (when the resolved name is
  the requested one and no such attribute is stored) or returns the stored value under
  the resolved name. A read of the empty name on a fresh object does neither: the
  \<^verbatim>\<open>__getattr__\<close> hook raises IndexError, on any object. Wherever the resolution
  returns, a read on a reachable object behaves as claimed (\<open>read_attr_of_reachable\<close>).
\<close>

theorem read_attr_empty_name_raises:
  "fuz_getattr lower dmo obj [] = Inl IndexError \<and>
   read_attr lower dmo (new_obj c) [] = Inl IndexError"
  by (simp add: read_attr_def fuz_getattr_def find_similar_attr_def object_getattribute_def
      new_obj_def)

section \<open>The orthographic pass\<close>

text \<open>
  C2. Claimed: for an eligible candidate the orthographic pass returns the first eligible
  existing name \<open>e\<close> whose lower-cased form equals the lower-cased candidate, or whose
  first and last characters match the candidate's case-insensitively while the sets of
  characters strictly between first and last character of \<open>e\<close> and of the candidate
  differ in fewer than 2 elements. The code takes the inner letters from the lower-cased
  names too, so it finds matches the stated rule does not: the candidate \<open>aBc\<close> is
  resolved to \<open>abdc\<close> (inner letters \<open>{b}\<close> and \<open>{b, d}\<close> after lower-casing), while
  the inner letters of the names as written, \<open>{B}\<close> and \<open>{b, d}\<close>, differ in three
  elements.
\<close>

theorem inner_letters_case_counterexample:
  "orthographic_pass ascii_lower [str ''abdc''] (str ''aBc'') = Inr (Some (str ''abdc'')) \<and>
   find_similar_attr ascii_lower (dmo_table []) [str ''abdc''] (str ''aBc'')
     = Inr (str ''abdc'') \<and>
   find (spec_orthographic_match ascii_lower (str ''aBc'')) (filter eligible [str ''abdc''])
     = None"
  by (simp add: run_defs spec_orthographic_match_def)

text \<open>
  C2, amended. For an eligible candidate and a listing without the empty name, line 78
  keeps the eligible names in their order, and the orthographic pass returns the first
  of them that matches the candidate, where all three comparisons are made on the
  lower-cased names: equal lower-cased forms, or equal first characters, equal last
  characters and inner-letter sets with a symmetric difference of fewer than 2 elements.
  The name is returned as it is stored, and it is the result of the whole resolution.
  Of \<^verbatim>\<open>str.lower()\<close> the statement uses only that it maps no non-empty string to the
  empty one.
\<close>

theorem orthographic_pass_first_match:
  assumes "eligible candidate" and "[] \<notin> set dir_list"
    and "\<forall>s. s \<noteq> [] \<longrightarrow> lower s \<noteq> []"
  shows "existing_attrs_of dir_list = Inr (filter eligible dir_list) \<and>
         orthographic_pass lower (filter eligible dir_list) candidate =
           Inr (find (orthographic_match lower candidate) (filter eligible dir_list)) \<and>
         (\<forall>e. find (orthographic_match lower candidate) (filter eligible dir_list) = Some e \<longrightarrow>
              find_similar_attr lower dmo dir_list candidate = Inr e)"
proof -
  have l1: "\<forall>a \<in> set (filter eligible dir_list). lower a \<noteq> []"
    using assms(3) by (auto dest: eligible_nonempty)
  have l2: "lower candidate \<noteq> []"
    using assms(1,3) by (auto dest: eligible_nonempty)
  have "orthographic_pass lower (filter eligible dir_list) candidate =
           Inr (find (orthographic_match lower candidate) (filter eligible dir_list))"
    using l1 l2 by (rule orthographic_pass_find)
  then show ?thesis
    using assms(1,2) l1 l2
    by (simp add: existing_attrs_of_filter find_similar_attr_orthographic)
qed

theorem orthographic_pass_first_match_witness:
  "eligible (str ''aBc'') \<and>
   [] \<notin> set [str ''_x'', str ''xyz'', str ''abdc'', str ''ABC''] \<and>
   existing_attrs_of [str ''_x'', str ''xyz'', str ''abdc'', str ''ABC'']
     = Inr [str ''xyz'', str ''abdc'', str ''ABC''] \<and>
   orthographic_pass ascii_lower [str ''xyz'', str ''abdc'', str ''ABC''] (str ''aBc'')
     = Inr (Some (str ''abdc'')) \<and>
   find_similar_attr ascii_lower (dmo_table [])
       [str ''_x'', str ''xyz'', str ''abdc'', str ''ABC''] (str ''aBc'')
     = Inr (str ''abdc'')"
proof -
  have h: "eligible (str ''aBc'')"
    "[] \<notin> set [str ''_x'', str ''xyz'', str ''abdc'', str ''ABC'']"
    by (simp_all add: eligible_def str_def)
  have f: "filter eligible [str ''_x'', str ''xyz'', str ''abdc'', str ''ABC'']
             = [str ''xyz'', str ''abdc'', str ''ABC'']"
    by (simp add: eligible_def str_def)
  have g: "find (orthographic_match ascii_lower (str ''aBc''))
             [str ''xyz'', str ''abdc'', str ''ABC''] = Some (str ''abdc'')"
    by (simp add: run_defs)
  show ?thesis
    using h orthographic_pass_first_match
      [OF h ascii_lower_nonempty, of "dmo_table []", unfolded f g]
    by simp
qed

text \<open>
  C10. Claimed: an eligible two-character candidate is matched by every eligible
  existing name, of any length, with the candidate's first and last character and at
  most one distinct interior character. Lower-casing can lengthen a name: \<open>a\<close>, U+0130,
  \<open>b\<close> has one interior character, but its lower-cased form has the two interior
  characters U+0069 and U+0307; against the candidate \<open>ab\<close> the symmetric difference
  has 2 elements, the test of lines 96-99 is false and the orthographic pass finds
  nothing.
\<close>

theorem two_letter_candidate_counterexample:
  "eligible (str ''ab'') \<and> length (str ''ab'') = 2 \<and> eligible [97, 304, 98] \<and>
   hd [97, 304, 98] = hd (str ''ab'') \<and> last [97, 304, 98] = last (str ''ab'') \<and>
   card (inner_letters [97, 304, 98]) \<le> 1 \<and>
   dotted_lower (str ''ab'') = str ''ab'' \<and>
   dotted_lower [97, 304, 98] = [97, 105, 775, 98] \<and>
   similar_spelling (dotted_lower (str ''ab'')) (dotted_lower [97, 304, 98]) = Inr False \<and>
   orthographic_pass dotted_lower [[97, 304, 98]] (str ''ab'') = Inr None"
  by (simp add: run_defs dotted_lower_def)

text \<open>
  C10, amended. Let \<^verbatim>\<open>str.lower()\<close> lower-case the candidate and the existing name
  character by character (each by one map \<open>f\<close> of characters, as it does every ASCII
  name). Then an eligible two-character candidate is matched by every eligible existing
  name, of any length, with the candidate's first and last character and at most one
  distinct interior character: the symmetric difference is that one letter or empty.
  Alone in the listing such a name is what the resolution returns, and in any listing
  that contains it the resolution returns an orthographic match.
\<close>

theorem two_letter_candidate_matches:
  assumes "eligible candidate" and "length candidate = 2"
    and "eligible e" and "hd e = hd candidate" and "last e = last candidate"
    and "card (inner_letters e) \<le> 1"
    and "lower candidate = map f candidate" and "lower e = map f e"
  shows "similar_spelling (lower candidate) (lower e) = Inr True \<and>
         find_similar_attr lower dmo [e] candidate = Inr e \<and>
         (\<forall>existing. [] \<notin> set existing \<and> e \<in> set existing \<and>
                     (\<forall>s. s \<noteq> [] \<longrightarrow> lower s \<noteq> []) \<longrightarrow>
            (\<exists>r. find_similar_attr lower dmo existing candidate = Inr r \<and> r \<in> set existing \<and>
                 eligible r \<and> orthographic_match lower candidate r))"
proof -
  have ne: "candidate \<noteq> []" "e \<noteq> []"
    using assms(1,3) by (auto dest: eligible_nonempty)
  then have lne: "lower candidate \<noteq> []" "lower e \<noteq> []"
    using assms(7,8) by simp_all
  have "inner_letters (lower candidate) = {}"
    using assms(2,7) by (simp add: inner_letters_two)
  moreover have "card (inner_letters (lower e)) \<le> 1"
  proof -
    have "finite (inner_letters e)" by (simp add: inner_letters_def)
    then have "card (f ` inner_letters e) \<le> card (inner_letters e)"
      by (rule card_image_le)
    then show ?thesis using assms(6,8) by (simp add: inner_letters_map)
  qed
  ultimately have "card (symmetric_difference (inner_letters (lower candidate))
                      (inner_letters (lower e))) < 2"
    by (simp add: symmetric_difference_def)
  moreover have "hd (lower e) = hd (lower candidate)" "last (lower e) = last (lower candidate)"
    using ne assms(4,5,7,8) by (simp_all add: hd_map last_map)
  ultimately have m: "orthographic_match lower candidate e"
    by (simp add: orthographic_match_def)
  have "find (orthographic_match lower candidate) (filter eligible [e]) = Some e"
    using m assms(3) by simp
  then have one: "find_similar_attr lower dmo [e] candidate = Inr e"
    using assms(1,3) ne lne by (intro find_similar_attr_orthographic) auto
  have many: "\<exists>r. find_similar_attr lower dmo existing candidate = Inr r \<and> r \<in> set existing \<and>
                 eligible r \<and> orthographic_match lower candidate r"
    if ex: "[] \<notin> set existing" "e \<in> set existing" "\<forall>s. s \<noteq> [] \<longrightarrow> lower s \<noteq> []"
    for existing
  proof -
    have "find (orthographic_match lower candidate) (filter eligible existing) \<noteq> None"
      using m assms(3) ex(2) by (auto simp: find_None_iff)
    then obtain r where
      r: "find (orthographic_match lower candidate) (filter eligible existing) = Some r"
      by auto
    have l1: "\<forall>a \<in> set (filter eligible existing). lower a \<noteq> []"
      using ex(3) by (auto dest: eligible_nonempty)
    have "find_similar_attr lower dmo existing candidate = Inr r"
      using assms(1) ex(1) l1 lne(1) r by (rule find_similar_attr_orthographic)
    moreover have "r \<in> set existing \<and> eligible r \<and> orthographic_match lower candidate r"
      using find_Some_set [OF r] by simp
    ultimately show ?thesis by blast
  qed
  have "similar_spelling (lower candidate) (lower e) = Inr True"
    using m lne by (simp add: similar_spelling_lower)
  then show ?thesis
    using one many by blast
qed

theorem two_letter_candidate_matches_witness:
  "eligible (str ''ab'') \<and> length (str ''ab'') = 2 \<and> eligible (str ''axxxxb'') \<and>
   card (inner_letters (str ''axxxxb'')) \<le> 1 \<and>
   ascii_lower (str ''axxxxb'') = map ascii_lower_char (str ''axxxxb'') \<and>
   similar_spelling (ascii_lower (str ''ab'')) (ascii_lower (str ''axxxxb'')) = Inr True \<and>
   find_similar_attr ascii_lower (dmo_table []) [str ''axxxxb''] (str ''ab'')
     = Inr (str ''axxxxb'')"
proof -
  have h: "eligible (str ''ab'')" "length (str ''ab'') = 2" "eligible (str ''axxxxb'')"
    "hd (str ''axxxxb'') = hd (str ''ab'')" "last (str ''axxxxb'') = last (str ''ab'')"
    "card (inner_letters (str ''axxxxb'')) \<le> 1"
    "ascii_lower (str ''ab'') = map ascii_lower_char (str ''ab'')"
    "ascii_lower (str ''axxxxb'') = map ascii_lower_char (str ''axxxxb'')"
    by (simp_all add: eligible_def inner_letters_def str_def ascii_lower_def)
  show ?thesis
    using h two_letter_candidate_matches [OF h, of "dmo_table []"] by blast
qed

text \<open>
  C9. Claimed: after \<^verbatim>\<open>set("teh", 1)\<close> the read \<^verbatim>\<open>get("the")\<close> returns 1, found by the
  orthographic pass because first and last letters agree. The last letters are \<open>h\<close> and
  \<open>e\<close>: the test of lines 96-99 fails and the orthographic pass finds nothing. With an
  encoder that gives the two names different codes the read raises the error of line 144.
\<close>

theorem teh_the_counterexample:
  "fuz_setattr ascii_lower (dmo_table [(''teh'', ''T''), (''the'', ''0'')]) (new_obj ''MyTest'')
       (str ''teh'') (1::int)
     = Inr \<lparr>cls = ''MyTest'', attrs = [(str ''teh'', 1)]\<rparr> \<and>
   similar_spelling (ascii_lower (str ''the'')) (ascii_lower (str ''teh'')) = Inr False \<and>
   orthographic_pass ascii_lower [str ''teh''] (str ''the'') = Inr None \<and>
   read_attr ascii_lower (dmo_table [(''teh'', ''T''), (''the'', ''0'')])
       \<lparr>cls = ''MyTest'', attrs = [(str ''teh'', 1::int)]\<rparr> (str ''the'')
     = Inl (AttributeError ''MyTest'' (str ''the''))"
  by (simp add: run_defs obj_defs)

text \<open>
  C9, amended. After \<^verbatim>\<open>set("teh", v)\<close> on a fresh object the orthographic pass finds no
  match for \<open>the\<close>. Where the encoder has codes for both names, the read of \<open>the\<close>
  returns \<open>v\<close> exactly when the two codes are equal and not empty (the phonetic pass),
  and raises the error of line 144 otherwise. Both names are ASCII, so their lower-casing
  is \<open>ascii_lower\<close>.
\<close>

theorem teh_the_by_sound_only:
  assumes "fst (dmo (str ''teh'')) = Some c1" and "fst (dmo (str ''the'')) = Some c2"
  shows "fuz_setattr ascii_lower dmo (new_obj c) (str ''teh'') v
           = Inr \<lparr>cls = c, attrs = [(str ''teh'', v)]\<rparr> \<and>
         orthographic_pass ascii_lower [str ''teh''] (str ''the'') = Inr None \<and>
         read_attr ascii_lower dmo \<lparr>cls = c, attrs = [(str ''teh'', v)]\<rparr> (str ''the'') =
           (if c2 \<noteq> [] \<and> c1 = c2 then Inr v else Inl (AttributeError c (str ''the'')))"
proof -
  have s1: "get_name_sound dmo (str ''teh'') = Inr c1"
    and s2: "get_name_sound dmo (str ''the'') = Inr c2"
    using assms by (simp_all add: get_name_sound_Some)
  have e1: "off_limits (str ''teh'') = Inr False" and e2: "off_limits (str ''the'') = Inr False"
    by (simp_all add: str_def)
  have ne: "str ''the'' \<noteq> str ''teh''"
    by (simp add: str_def)
  have o0: "orthographic_pass ascii_lower [] (str ''teh'') = Inr None"
    by (simp add: orthographic_pass_def)
  have o: "orthographic_pass ascii_lower [str ''teh''] (str ''the'') = Inr None"
    by (simp add: run_defs)
  have w: "fuz_setattr ascii_lower dmo (new_obj c) (str ''teh'') v
             = Inr \<lparr>cls = c, attrs = [(str ''teh'', v)]\<rparr>"
    by (simp add: obj_defs find_similar_attr_def e1 o0 phonetic_pass_def s1)
  have r: "read_attr ascii_lower dmo \<lparr>cls = c, attrs = [(str ''teh'', v)]\<rparr> (str ''the'') =
           (if c2 \<noteq> [] \<and> c1 = c2 then Inr v else Inl (AttributeError c (str ''the'')))"
    using ne by (simp add: obj_defs find_similar_attr_def e1 e2 o phonetic_pass_def s1 s2)
  show ?thesis using o w r by simp
qed

theorem teh_the_by_sound_only_witness:
  "fst (dmo_table [(''teh'', ''T''), (''the'', ''T'')] (str ''teh'')) = Some (str ''T'') \<and>
   fst (dmo_table [(''teh'', ''T''), (''the'', ''T'')] (str ''the'')) = Some (str ''T'') \<and>
   orthographic_pass ascii_lower [str ''teh''] (str ''the'') = Inr None \<and>
   read_attr ascii_lower (dmo_table [(''teh'', ''T''), (''the'', ''T'')])
       \<lparr>cls = ''MyTest'', attrs = [(str ''teh'', 1::int)]\<rparr> (str ''the'') = Inr 1"
proof -
  have h: "fst (dmo_table [(''teh'', ''T''), (''the'', ''T'')] (str ''teh'')) = Some (str ''T'')"
    "fst (dmo_table [(''teh'', ''T''), (''the'', ''T'')] (str ''the'')) = Some (str ''T'')"
    by (simp_all add: dmo_table_def str_def)
  have n: "str ''T'' \<noteq> []" by (simp add: str_def)
  show ?thesis
    using h n teh_the_by_sound_only [OF h, of "''MyTest''" "1::int"] by simp
qed

section \<open>The order of the existing names\<close>

text \<open>
  C1. Claimed: the existing names are iterated in the order of their first definition,
  and of two names that pass the orthographic test the one defined earlier is returned.
  The names come from \<^verbatim>\<open>dir(self)\<close>, which sorts them. After the writes of \<open>adc\<close> and
  then \<open>abc\<close> both are stored, in this order; both pass the test for the candidate
  \<open>abdc\<close>; the listing is \<open>abc, adc\<close> and the read of \<open>abdc\<close> returns the value of
  \<open>abc\<close>, the name defined later.
\<close>

theorem definition_order_counterexample:
  "fuz_setattr ascii_lower (dmo_table [(''adc'', ''ATK''), (''abc'', ''APK'')])
       (new_obj ''MyTest'') (str ''adc'') (1::int)
     = Inr \<lparr>cls = ''MyTest'', attrs = [(str ''adc'', 1)]\<rparr> \<and>
   fuz_setattr ascii_lower (dmo_table [(''adc'', ''ATK''), (''abc'', ''APK'')])
       \<lparr>cls = ''MyTest'', attrs = [(str ''adc'', 1::int)]\<rparr> (str ''abc'') 2
     = Inr \<lparr>cls = ''MyTest'', attrs = [(str ''adc'', 1), (str ''abc'', 2)]\<rparr> \<and>
   dir_self \<lparr>cls = ''MyTest'', attrs = [(str ''adc'', 1::int), (str ''abc'', 2)]\<rparr>
     = [str ''abc'', str ''adc''] \<and>
   orthographic_match ascii_lower (str ''abdc'') (str ''adc'') \<and>
   orthographic_match ascii_lower (str ''abdc'') (str ''abc'') \<and>
   find_similar_attr ascii_lower (dmo_table [(''adc'', ''ATK''), (''abc'', ''APK'')])
       (dir_self \<lparr>cls = ''MyTest'', attrs = [(str ''adc'', 1::int), (str ''abc'', 2)]\<rparr>)
       (str ''abdc'')
     = Inr (str ''abc'') \<and>
   read_attr ascii_lower (dmo_table [(''adc'', ''ATK''), (''abc'', ''APK'')])
       \<lparr>cls = ''MyTest'', attrs = [(str ''adc'', 1::int), (str ''abc'', 2)]\<rparr> (str ''abdc'')
     = Inr 2"
  by (simp add: run_defs obj_defs)

text \<open>
  C1, amended. The sequence the resolution iterates is the sorted listing of the
  attribute names (ascending, strings compared character by character), whatever the
  order of definition. For an eligible candidate and an object without an empty
  attribute name: when an eligible stored name \<open>a\<close> passes the orthographic test, the
  resolution returns a stored eligible name that passes it and is not above \<open>a\<close> in
  that order; so of two names that pass, the one sorting first wins. Of
  \<^verbatim>\<open>str.lower()\<close> the statement uses only that it maps no non-empty string to the
  empty one.
\<close>

theorem resolve_prefers_name_sorting_first:
  assumes "eligible candidate" and "[] \<notin> fst ` set (attrs obj)"
    and "a \<in> fst ` set (attrs obj)" and "eligible a"
    and "orthographic_match lower candidate a"
    and "\<forall>s. s \<noteq> [] \<longrightarrow> lower s \<noteq> []"
  shows "sorted (dir_self obj) \<and> set (dir_self obj) = fst ` set (attrs obj) \<and>
         (\<exists>r. find_similar_attr lower dmo (dir_self obj) candidate = Inr r \<and>
              r \<in> fst ` set (attrs obj) \<and> eligible r \<and>
              orthographic_match lower candidate r \<and> r \<le> a)"
proof -
  let ?ex = "filter eligible (dir_self obj)"
  have a_in: "a \<in> set ?ex"
    using assms(3,4) by (simp add: set_dir_self)
  then have "find (orthographic_match lower candidate) ?ex \<noteq> None"
    using assms(5) by (auto simp: find_None_iff)
  then obtain r where r: "find (orthographic_match lower candidate) ?ex = Some r"
    by auto
  have l0: "[] \<notin> set (dir_self obj)"
    using assms(2) by (simp add: set_dir_self)
  have l1: "\<forall>a \<in> set ?ex. lower a \<noteq> []"
    using assms(6) by (auto dest: eligible_nonempty)
  have l2: "lower candidate \<noteq> []"
    using assms(1,6) by (auto dest: eligible_nonempty)
  have res: "find_similar_attr lower dmo (dir_self obj) candidate = Inr r"
    using assms(1) l0 l1 l2 r by (rule find_similar_attr_orthographic)
  have "sorted ?ex"
    by (simp add: sorted_dir_self sorted_wrt_filter)
  then have "r \<le> a"
    using r a_in assms(5) by (rule sorted_find_least)
  moreover have "r \<in> set ?ex \<and> orthographic_match lower candidate r"
    using find_Some_set [OF r] .
  ultimately show ?thesis
    using res by (auto simp: set_dir_self sorted_dir_self)
qed

theorem resolve_prefers_name_sorting_first_witness:
  "eligible (str ''abdc'') \<and> eligible (str ''adc'') \<and>
   orthographic_match ascii_lower (str ''abdc'') (str ''adc'') \<and>
   sorted (dir_self \<lparr>cls = ''MyTest'', attrs = [(str ''adc'', 1::int), (str ''abc'', 2)]\<rparr>) \<and>
   (\<exists>r. find_similar_attr ascii_lower (dmo_table [])
          (dir_self \<lparr>cls = ''MyTest'', attrs = [(str ''adc'', 1::int), (str ''abc'', 2)]\<rparr>)
          (str ''abdc'') = Inr r \<and>
        r \<le> str ''adc'')"
proof -
  let ?obj = "\<lparr>cls = ''MyTest'', attrs = [(str ''adc'', 1::int), (str ''abc'', 2)]\<rparr>"
  have h: "eligible (str ''abdc'')" "[] \<notin> fst ` set (attrs ?obj)"
    "str ''adc'' \<in> fst ` set (attrs ?obj)"
    "eligible (str ''adc'')" "orthographic_match ascii_lower (str ''abdc'') (str ''adc'')"
    by (simp_all add: run_defs)
  show ?thesis
    using h(1,4,5)
      resolve_prefers_name_sorting_first [OF h ascii_lower_nonempty, of "dmo_table []"]
    by blast
qed

section \<open>The phonetic pass\<close>

text \<open>
  C3. Claimed: the phonetic pass runs only after the orthographic pass found nothing; a
  candidate whose code is empty or absent skips the pass and is returned unchanged;
  otherwise the first eligible existing name with the candidate's code is returned.
  For a candidate without a primary code (\<^verbatim>\<open>None\<close>) the pass is not skipped:
  \<^verbatim>\<open>_get_name_sound\<close> raises on \<^verbatim>\<open>None.decode()\<close> before line 110 tests the sound, and
  the resolution and the write raise with it. For the empty code and for codes that are
  present the code does what is claimed (\<open>find_similar_attr_phonetic\<close>).
\<close>

theorem absent_code_raises:
  "phonetic_pass (dmo_table []) [] (str ''12'') = Inl NoneTypeError \<and>
   find_similar_attr ascii_lower (dmo_table []) [] (str ''12'') = Inl NoneTypeError \<and>
   fuz_setattr ascii_lower (dmo_table []) (new_obj ''MyTest'') (str ''12'') (1::int)
     = Inl NoneTypeError"
  by (simp add: run_defs obj_defs)

section \<open>The overwrite law\<close>

text \<open>
  C6. After a write of \<open>a\<close> that succeeded, let \<open>b\<close> resolve to \<open>a\<close> (by either pass, or
  because \<open>b\<close> is \<open>a\<close>). Then \<open>a\<close> is a stored attribute, the write of \<open>b\<close> succeeds
  and lands on \<open>a\<close>, a read of \<open>a\<close> returns the new value, the stored names are the same
  list as before (no entry for \<open>b\<close> is created), and every other attribute keeps its
  value.
\<close>

theorem overwrite_law:
  assumes "fuz_setattr lower dmo obj a v1 = Inr obj1"
    and "find_similar_attr lower dmo (dir_self obj1) b = Inr a"
  shows "a \<in> fst ` set (attrs obj1) \<and>
         fuz_setattr lower dmo obj1 b v2 = Inr (object_setattr obj1 a v2) \<and>
         read_attr lower dmo (object_setattr obj1 a v2) a = Inr v2 \<and>
         map fst (attrs (object_setattr obj1 a v2)) = map fst (attrs obj1) \<and>
         (\<forall>k. k \<noteq> a \<longrightarrow>
            map_of (attrs (object_setattr obj1 a v2)) k = map_of (attrs obj1) k)"
proof -
  obtain a' where a': "find_similar_attr lower dmo (dir_self obj) a = Inr a'"
    and obj1: "obj1 = object_setattr obj a' v1"
    using assms(1) by (auto simp: fuz_setattr_def split: sum.splits)
  have a'_in: "a' \<in> fst ` set (attrs obj1)"
    by (simp add: obj1 object_setattr_def dom_update)
  have a_in: "a \<in> fst ` set (attrs obj1)"
  proof (cases "a' = a")
    case True
    then show ?thesis using a'_in by simp
  next
    case False
    then have "a' \<in> set (dir_self obj)"
      using find_similar_attr_result [OF a'] by auto
    then have "a' \<in> set (map fst (attrs obj))"
      by (simp add: set_dir_self)
    then have "map fst (attrs obj1) = map fst (attrs obj)"
      by (simp add: obj1 object_setattr_def update_keys)
    then have same: "dir_self obj1 = dir_self obj"
      by (simp add: dir_self_def)
    have "b \<noteq> a"
    proof
      assume "b = a"
      then have "Inr a = Inr a'" using assms(2) a' same by simp
      then show False using False by simp
    qed
    then have "a \<in> set (dir_self obj1)"
      using find_similar_attr_result [OF assms(2)] by auto
    then show ?thesis by (simp add: set_dir_self)
  qed
  have w: "fuz_setattr lower dmo obj1 b v2 = Inr (object_setattr obj1 a v2)"
    using assms(2) by (simp add: fuz_setattr_def)
  have r: "read_attr lower dmo (object_setattr obj1 a v2) a = Inr v2"
    by (simp add: read_attr_def object_getattribute_def object_setattr_def map_of_update_same)
  have k: "map fst (attrs (object_setattr obj1 a v2)) = map fst (attrs obj1)"
    using a_in by (simp add: object_setattr_def update_keys)
  have f: "map_of (attrs (object_setattr obj1 a v2)) k = map_of (attrs obj1) k" if "k \<noteq> a" for k
    using that by (simp add: object_setattr_def update_conv')
  show ?thesis using a_in w r k f by simp
qed

theorem overwrite_law_witness:
  "fuz_setattr ascii_lower (dmo_table [(''foobar'', ''FPR''), (''fuhbar'', ''FPR'')])
       (new_obj ''MyTest'') (str ''foobar'') (123::int)
     = Inr \<lparr>cls = ''MyTest'', attrs = [(str ''foobar'', 123)]\<rparr> \<and>
   find_similar_attr ascii_lower (dmo_table [(''foobar'', ''FPR''), (''fuhbar'', ''FPR'')])
       (dir_self \<lparr>cls = ''MyTest'', attrs = [(str ''foobar'', 123::int)]\<rparr>) (str ''fuhbar'')
     = Inr (str ''foobar'') \<and>
   fuz_setattr ascii_lower (dmo_table [(''foobar'', ''FPR''), (''fuhbar'', ''FPR'')])
       \<lparr>cls = ''MyTest'', attrs = [(str ''foobar'', 123::int)]\<rparr> (str ''fuhbar'') 456
     = Inr \<lparr>cls = ''MyTest'', attrs = [(str ''foobar'', 456)]\<rparr> \<and>
   read_attr ascii_lower (dmo_table [(''foobar'', ''FPR''), (''fuhbar'', ''FPR'')])
       \<lparr>cls = ''MyTest'', attrs = [(str ''foobar'', 456::int)]\<rparr> (str ''foobar'') = Inr 456"
proof -
  let ?dmo = "dmo_table [(''foobar'', ''FPR''), (''fuhbar'', ''FPR'')]"
  let ?o1 = "\<lparr>cls = ''MyTest'', attrs = [(str ''foobar'', 123::int)]\<rparr>"
  have h1: "fuz_setattr ascii_lower ?dmo (new_obj ''MyTest'') (str ''foobar'') (123::int)
              = Inr ?o1"
    by (simp add: run_defs obj_defs)
  have h2: "find_similar_attr ascii_lower ?dmo (dir_self ?o1) (str ''fuhbar'')
              = Inr (str ''foobar'')"
    by (simp add: run_defs obj_defs insert_Diff_if)
  have u: "object_setattr ?o1 (str ''foobar'') 456
             = \<lparr>cls = ''MyTest'', attrs = [(str ''foobar'', 456)]\<rparr>"
    by (simp add: object_setattr_def)
  show ?thesis
    using h1 h2 overwrite_law [OF h1 h2, of 456, unfolded u] by simp
qed

end
